theory Spec2Isabelle
  imports Complex_Main "HOL-Library.Word"
begin

unbundle bit_operations_syntax

section \<open>Floating-point values\<close>

text \<open>
  The synthesizer computes on C++ \<^verbatim>\<open>double\<close> and \<^verbatim>\<open>float\<close>. Both are modelled by one
  type: a finite value is a real number, and the three special values of IEEE 754 are
  kept, because the output guard tests for them and every comparison with NaN is false.
  Idealised: finite arithmetic is exact (no rounding, no overflow to infinity, decimal
  literals denote their decimal value), and zero has no sign (a division of a non-zero
  value by zero gives the infinity with the sign of the dividend).
\<close>

datatype fl = Val real | PosInf | NegInf | NaN

type_synonym u8 = "8 word"
type_synonym u16 = "16 word"
type_synonym u32 = "32 word"

fun fadd :: "fl \<Rightarrow> fl \<Rightarrow> fl" where
  "fadd NaN y = NaN"
| "fadd x NaN = NaN"
| "fadd (Val a) (Val b) = Val (a + b)"
| "fadd PosInf NegInf = NaN"
| "fadd NegInf PosInf = NaN"
| "fadd PosInf y = PosInf"
| "fadd NegInf y = NegInf"
| "fadd (Val a) y = y"

fun fneg :: "fl \<Rightarrow> fl" where
  "fneg (Val a) = Val (- a)"
| "fneg PosInf = NegInf"
| "fneg NegInf = PosInf"
| "fneg NaN = NaN"

definition fsub :: "fl \<Rightarrow> fl \<Rightarrow> fl" where
  "fsub x y = fadd x (fneg y)"

fun fmul :: "fl \<Rightarrow> fl \<Rightarrow> fl" where
  "fmul NaN y = NaN"
| "fmul x NaN = NaN"
| "fmul (Val a) (Val b) = Val (a * b)"
| "fmul PosInf (Val b) = (if b = 0 then NaN else if 0 < b then PosInf else NegInf)"
| "fmul NegInf (Val b) = (if b = 0 then NaN else if 0 < b then NegInf else PosInf)"
| "fmul (Val a) PosInf = (if a = 0 then NaN else if 0 < a then PosInf else NegInf)"
| "fmul (Val a) NegInf = (if a = 0 then NaN else if 0 < a then NegInf else PosInf)"
| "fmul PosInf PosInf = PosInf"
| "fmul PosInf NegInf = NegInf"
| "fmul NegInf PosInf = NegInf"
| "fmul NegInf NegInf = PosInf"

fun fdiv :: "fl \<Rightarrow> fl \<Rightarrow> fl" where
  "fdiv NaN y = NaN"
| "fdiv x NaN = NaN"
| "fdiv (Val a) (Val b) =
     (if b \<noteq> 0 then Val (a / b)
      else if a = 0 then NaN else if 0 < a then PosInf else NegInf)"
| "fdiv (Val a) y = Val 0"
| "fdiv PosInf (Val b) = (if 0 \<le> b then PosInf else NegInf)"
| "fdiv NegInf (Val b) = (if 0 \<le> b then NegInf else PosInf)"
| "fdiv x y = NaN"

text \<open>\<^verbatim>\<open>x < y\<close> and \<^verbatim>\<open>x <= y\<close>; \<^verbatim>\<open>x > y\<close> is \<open>flt y x\<close> and \<^verbatim>\<open>x >= y\<close> is \<open>fle y x\<close>.\<close>

fun flt :: "fl \<Rightarrow> fl \<Rightarrow> bool" where
  "flt NaN y = False"
| "flt x NaN = False"
| "flt (Val a) (Val b) = (a < b)"
| "flt x NegInf = False"
| "flt NegInf y = True"
| "flt PosInf y = False"
| "flt (Val a) PosInf = True"

fun fle :: "fl \<Rightarrow> fl \<Rightarrow> bool" where
  "fle NaN y = False"
| "fle x NaN = False"
| "fle (Val a) (Val b) = (a \<le> b)"
| "fle NegInf y = True"
| "fle x PosInf = True"
| "fle PosInf y = False"
| "fle (Val a) NegInf = False"

text \<open>\<^verbatim>\<open>std::sin\<close>, \<^verbatim>\<open>std::exp2\<close>, \<^verbatim>\<open>std::isnan\<close> and \<^verbatim>\<open>std::isinf\<close>.\<close>

fun fsin :: "fl \<Rightarrow> fl" where
  "fsin (Val a) = Val (sin a)"
| "fsin x = NaN"

fun fexp2 :: "fl \<Rightarrow> fl" where
  "fexp2 (Val a) = Val (2 powr a)"
| "fexp2 PosInf = PosInf"
| "fexp2 NegInf = Val 0"
| "fexp2 NaN = NaN"

fun isnan :: "fl \<Rightarrow> bool" where
  "isnan NaN = True"
| "isnan x = False"

fun isinf :: "fl \<Rightarrow> bool" where
  "isinf PosInf = True"
| "isinf NegInf = True"
| "isinf x = False"

text \<open>
  A conversion of a \<^verbatim>\<open>double\<close> to an integer type truncates towards zero; it is undefined
  (\<open>None\<close>) when the value is not finite or the truncated value does not fit the type.
\<close>

definition trunc :: "real \<Rightarrow> int" where
  "trunc x = (if 0 \<le> x then \<lfloor>x\<rfloor> else \<lceil>x\<rceil>)"

fun double_to_int :: "int \<Rightarrow> int \<Rightarrow> fl \<Rightarrow> int option" where
  "double_to_int lo hi (Val x) = (if lo \<le> trunc x \<and> trunc x \<le> hi then Some (trunc x) else None)"
| "double_to_int lo hi x = None"

definition INT_MIN :: int where "INT_MIN = - (2 ^ 31)"
definition INT_MAX :: int where "INT_MAX = 2 ^ 31 - 1"

section \<open>The plug-in: src/juce/Source/PluginProcessor.h and PluginProcessor.cpp\<close>

subsection \<open>State\<close>

text \<open>
  The private data members of \<^verbatim>\<open>SynthAudioProcessor\<close> (PluginProcessor.h, lines 54 to 66).
  The member \<^verbatim>\<open>inc\<close> is named \<open>inc_osc\<close> here. The class gives no member an initial value.
\<close>

record engine =
  sampleRate :: fl
  activeNote :: int
  frequency :: fl
  amplitude :: fl
  env :: fl
  envSlope :: fl
  phase :: fl
  inc_osc :: fl

definition TWO_PI :: real where
  "TWO_PI = 6.28318530717958647692528676655900576"

subsection \<open>The synthesis algorithm (PluginProcessor.cpp, lines 289 to 316)\<close>

definition reset :: "engine \<Rightarrow> engine" where
  "reset st = st\<lparr>phase := Val 0, inc_osc := Val 0\<rparr>"

definition startSound :: "engine \<Rightarrow> engine" where
  "startSound st = st\<lparr>inc_osc := fdiv (fmul (frequency st) (Val TWO_PI)) (sampleRate st)\<rparr>"

text \<open>\<^verbatim>\<open>processSample\<close> returns its output and leaves the phase advanced.\<close>

definition processSample :: "engine \<Rightarrow> fl \<times> engine" where
  "processSample st =
     (let output = fmul (amplitude st) (fsin (phase st));
          st1 = st\<lparr>phase := fadd (phase st) (inc_osc st)\<rparr>;
          st2 = (if flt (Val TWO_PI) (phase st1)
                 then st1\<lparr>phase := fsub (phase st1) (Val TWO_PI)\<rparr> else st1)
      in (output, st2))"

subsection \<open>Lifecycle and notes (lines 70 to 76 and 222 to 242)\<close>

definition prepareToPlay :: "engine \<Rightarrow> fl \<Rightarrow> engine" where
  "prepareToPlay st sampleRate' = reset (st\<lparr>sampleRate := sampleRate', activeNote := 0, env := Val 0\<rparr>)"

definition attackTime :: fl where "attackTime = Val 0.01"
definition releaseTime :: fl where "releaseTime = Val 0.01"

definition noteOn :: "engine \<Rightarrow> int \<Rightarrow> int \<Rightarrow> engine" where
  "noteOn st note velocity =
     (let st1 = st\<lparr>activeNote := note\<rparr>;
          st2 = st1\<lparr>amplitude := fmul (fdiv (Val (of_int velocity)) (Val 127)) (Val 0.5)\<rparr>;
          st3 = st2\<lparr>frequency :=
                  fmul (Val 440) (fexp2 (fdiv (Val (of_int (activeNote st2 - 69))) (Val 12)))\<rparr>;
          st4 = st3\<lparr>envSlope := fdiv (Val 1) (fmul (sampleRate st3) attackTime)\<rparr>
      in startSound st4)"

definition noteOff :: "engine \<Rightarrow> int \<Rightarrow> engine" where
  "noteOff st note =
     (if activeNote st = note
      then st\<lparr>activeNote := 0, envSlope := fdiv (Val (- 1)) (fmul (sampleRate st) releaseTime)\<rparr>
      else st)"

subsection \<open>MIDI (lines 131 to 149)\<close>

definition handleMIDI :: "engine \<Rightarrow> u8 \<Rightarrow> u8 \<Rightarrow> u8 \<Rightarrow> engine" where
  "handleMIDI st data0 data1 data2 =
     (if data0 AND 0xF0 = 0x80 then noteOff st (uint data1)
      else if data0 AND 0xF0 = 0x90 then
        (let note = data1; velo = data2
         in if 0 < velo then noteOn st (uint note) (uint velo) else noteOff st (uint note))
      else st)"

subsection \<open>The output guard (lines 151 to 185)\<close>

text \<open>
  \<^verbatim>\<open>protectYourEars(buffer, sampleCount)\<close>: the pointer and the count are modelled as the
  list of the \<^verbatim>\<open>sampleCount\<close> floats at \<^verbatim>\<open>buffer\<close>, a null pointer as \<open>None\<close>. The
  function \<open>protect_loop\<close> is the \<^verbatim>\<open>for\<close> loop from index \<open>i\<close> on; the \<^verbatim>\<open>memset\<close> and the
  \<^verbatim>\<open>return\<close> end it. The \<^verbatim>\<open>DBG\<close> messages, and the flag \<^verbatim>\<open>firstWarning\<close> that only
  limits them, are left out.
\<close>

function protect_loop :: "fl list \<Rightarrow> nat \<Rightarrow> fl list" where
  "protect_loop buffer i =
     (if i < length buffer then
        (let x = buffer ! i;
             silence = (isnan x \<or> isinf x \<or> flt x (Val (- 2)) \<or> flt (Val 2) x);
             buffer' = (if silence then buffer
                        else if flt x (Val (- 1)) then buffer[i := Val (- 1)]
                        else if flt (Val 1) x then buffer[i := Val 1]
                        else buffer)
         in if silence then replicate (length buffer) (Val 0)
            else protect_loop buffer' (i + 1))
      else buffer)"
  by pat_completeness auto
termination
  by (relation "measure (\<lambda>(buffer, i). length buffer - i)") auto

declare protect_loop.simps [simp del]

definition protectYourEars :: "fl list option \<Rightarrow> fl list option" where
  "protectYourEars buffer =
     (case buffer of None \<Rightarrow> None | Some b \<Rightarrow> Some (protect_loop b 0))"

subsection \<open>Rendering a span (lines 187 to 220)\<close>

text \<open>
  The body of the \<^verbatim>\<open>for\<close> loop of \<^verbatim>\<open>render\<close> up to the value written to the channels
  (lines 196 to 210, with \<^verbatim>\<open>ENABLE_ENVELOPE\<close> defined as in line 5).
\<close>

definition render_sample :: "engine \<Rightarrow> fl \<times> engine" where
  "render_sample st =
     (let output = Val 0
      in if 0 < activeNote st \<or> flt (Val 0) (env st) then
           (let (s, st1) = processSample st;
                output = fadd output s;
                st2 = st1\<lparr>env := fadd (env st1) (envSlope st1)\<rparr>;
                st3 = (if fle (Val 1) (env st2) then st2\<lparr>env := Val 1\<rparr>
                       else if fle (env st2) (Val 0) then st2\<lparr>env := Val 0\<rparr>
                       else st2);
                output = fmul output (env st3)
            in (output, st3))
         else (output, st))"

text \<open>
  An \<^verbatim>\<open>AudioBuffer<float>\<close> of one or two channels: channel 0, and channel 1 when the
  processor has more than one output channel. \<^verbatim>\<open>getNumSamples\<close> is the length of a channel.
\<close>

record audio_buffer =
  chan0 :: "fl list"
  chan1 :: "fl list option"

definition getNumSamples :: "audio_buffer \<Rightarrow> int" where
  "getNumSamples buffer = int (length (chan0 buffer))"

text \<open>
  The loop of \<^verbatim>\<open>render\<close> from index \<open>sample\<close> on, writing into the two spans. The
  conversion of the sample from \<^verbatim>\<open>double\<close> to \<^verbatim>\<open>float\<close> is the identity here.
\<close>

function render_loop ::
  "engine \<Rightarrow> fl list \<Rightarrow> fl list option \<Rightarrow> nat \<Rightarrow> nat \<Rightarrow> engine \<times> fl list \<times> fl list option" where
  "render_loop st outputBufferLeft outputBufferRight sampleCount sample =
     (if sample < sampleCount then
        (let (output, st') = render_sample st;
             left = outputBufferLeft[sample := output];
             right = (case outputBufferRight of None \<Rightarrow> None
                      | Some r \<Rightarrow> Some (r[sample := output]))
         in render_loop st' left right sampleCount (sample + 1))
      else (st, outputBufferLeft, outputBufferRight))"
  by pat_completeness auto
termination
  by (relation "measure (\<lambda>(st, l, r, sampleCount, sample). sampleCount - sample)") auto

declare render_loop.simps [simp del]

text \<open>
  A span of a channel is read out as a list and written back after the guard has run;
  the two channels do not overlap, so this is the effect of the writes through the two
  pointers. An access outside a channel is undefined behaviour: \<open>None\<close>. With no sample to
  render nothing is read or written.
\<close>

definition span :: "nat \<Rightarrow> nat \<Rightarrow> fl list \<Rightarrow> fl list" where
  "span off n xs = take n (drop off xs)"

definition put_span :: "nat \<Rightarrow> fl list \<Rightarrow> fl list \<Rightarrow> fl list" where
  "put_span off ys xs = take off xs @ ys @ drop (off + length ys) xs"

definition in_channel :: "int \<Rightarrow> int \<Rightarrow> fl list \<Rightarrow> bool" where
  "in_channel bufferOffset sampleCount xs =
     (0 \<le> bufferOffset \<and> bufferOffset + sampleCount \<le> int (length xs))"

definition render :: "engine \<Rightarrow> audio_buffer \<Rightarrow> int \<Rightarrow> int \<Rightarrow> (engine \<times> audio_buffer) option" where
  "render st buffer sampleCount bufferOffset =
     (if sampleCount \<le> 0 then Some (st, buffer)
      else if \<not> in_channel bufferOffset sampleCount (chan0 buffer) then None
      else if (case chan1 buffer of None \<Rightarrow> False
               | Some r \<Rightarrow> \<not> in_channel bufferOffset sampleCount r) then None
      else
        (let off = nat bufferOffset; n = nat sampleCount;
             outputBufferLeft = span off n (chan0 buffer);
             outputBufferRight = map_option (span off n) (chan1 buffer);
             (st', left, right) = render_loop st outputBufferLeft outputBufferRight n 0;
             left' = protectYourEars (Some left);
             right' = protectYourEars right
         in Some (st', buffer\<lparr>
              chan0 := (case left' of None \<Rightarrow> chan0 buffer
                        | Some l \<Rightarrow> put_span off l (chan0 buffer)),
              chan1 := (case (chan1 buffer, right') of
                          (Some c, Some r) \<Rightarrow> Some (put_span off r c)
                        | _ \<Rightarrow> chan1 buffer)\<rparr>)))"

subsection \<open>Splitting a block at its MIDI events (lines 106 to 129)\<close>

text \<open>
  One element of a \<^verbatim>\<open>juce::MidiBuffer\<close>: \<^verbatim>\<open>numBytes\<close> is the number of bytes of \<^verbatim>\<open>data\<close>.
  Reading \<^verbatim>\<open>data[0]\<close> of a message with no byte is undefined behaviour: \<open>None\<close>.
\<close>

record midi_event =
  samplePosition :: int
  data :: "u8 list"

definition numBytes :: "midi_event \<Rightarrow> int" where
  "numBytes metadata = int (length (data metadata))"

text \<open>Lines 116 to 120: the bytes handed to \<^verbatim>\<open>handleMIDI\<close>.\<close>

definition dispatch :: "engine \<Rightarrow> midi_event \<Rightarrow> engine option" where
  "dispatch st metadata =
     (if numBytes metadata \<le> 3 then
        (case data metadata of
           [] \<Rightarrow> None
         | d0 # ds \<Rightarrow>
             (let data1 = (if 2 \<le> numBytes metadata then data metadata ! 1 else 0);
                  data2 = (if numBytes metadata = 3 then data metadata ! 2 else 0)
              in Some (handleMIDI st d0 data1 data2)))
      else Some st)"

text \<open>The \<^verbatim>\<open>for\<close> loop over the messages; the result carries \<^verbatim>\<open>bufferOffset\<close>.\<close>

fun split_loop ::
  "engine \<Rightarrow> audio_buffer \<Rightarrow> int \<Rightarrow> midi_event list \<Rightarrow> (engine \<times> audio_buffer \<times> int) option" where
  "split_loop st buffer bufferOffset [] = Some (st, buffer, bufferOffset)"
| "split_loop st buffer bufferOffset (metadata # rest) =
     (let samplesThisSegment = samplePosition metadata - bufferOffset
      in case (if 0 < samplesThisSegment
               then map_option (\<lambda>(st', buffer'). (st', buffer', bufferOffset + samplesThisSegment))
                      (render st buffer samplesThisSegment bufferOffset)
               else Some (st, buffer, bufferOffset)) of
           None \<Rightarrow> None
         | Some (st1, buffer1, bufferOffset1) \<Rightarrow>
             (case dispatch st1 metadata of
                None \<Rightarrow> None
              | Some st2 \<Rightarrow> split_loop st2 buffer1 bufferOffset1 rest))"

text \<open>
  The third component of the result is the message buffer after \<^verbatim>\<open>clear()\<close>. Offsets and
  counts are unbounded integers: with offsets inside the block no \<^verbatim>\<open>int\<close> overflows.
  \<^verbatim>\<open>processBlock\<close> (lines 91 to 104) clears the output channels, calls the empty
  \<^verbatim>\<open>updateParameters\<close> and then this function, which writes every frame of the block.
\<close>

definition splitBufferByEvents ::
  "engine \<Rightarrow> audio_buffer \<Rightarrow> midi_event list \<Rightarrow> (engine \<times> audio_buffer \<times> midi_event list) option" where
  "splitBufferByEvents st buffer midiMessages =
     (case split_loop st buffer 0 midiMessages of
        None \<Rightarrow> None
      | Some (st1, buffer1, bufferOffset) \<Rightarrow>
          (let samplesLastSegment = getNumSamples buffer1 - bufferOffset
           in if 0 < samplesLastSegment
              then map_option (\<lambda>(st', buffer'). (st', buffer', []))
                     (render st1 buffer1 samplesLastSegment bufferOffset)
              else Some (st1, buffer1, [])))"

section \<open>The command-line program: src/cli/main.cpp\<close>

text \<open>
  The functions \<^verbatim>\<open>reset\<close>, \<^verbatim>\<open>startSound\<close> and \<^verbatim>\<open>processSample\<close> of main.cpp are, word for
  word, those of the plug-in, over global variables instead of data members; the
  definitions above model both. The globals \<^verbatim>\<open>sampleRate\<close>, \<^verbatim>\<open>frequency\<close>, \<^verbatim>\<open>amplitude\<close>,
  \<^verbatim>\<open>phase\<close> and \<^verbatim>\<open>inc\<close> are the fields of the same names of an \<open>engine\<close> (its other fields
  have no counterpart in main.cpp), and \<^verbatim>\<open>lengthInSeconds\<close> is a parameter of \<open>main\<close>. As
  shipped (lines 27 to 31):
\<close>

definition cli_globals :: engine where
  "cli_globals = \<lparr>sampleRate = Val 48000, activeNote = 0, frequency = Val 261.63,
     amplitude = Val 0.5, env = Val 0, envSlope = Val 0, phase = Val 0, inc_osc = Val 0\<rparr>"

definition cli_lengthInSeconds :: fl where
  "cli_lengthInSeconds = Val 10"

type_synonym i16 = "16 word"

text \<open>Line 81: \<^verbatim>\<open>static_cast<int16_t>(output * 32767.0)\<close>.\<close>

definition to_int16 :: "fl \<Rightarrow> i16 option" where
  "to_int16 x = map_option word_of_int (double_to_int (- 32768) 32767 x)"

text \<open>
  Lines 79 to 82: the loop that fills \<^verbatim>\<open>outputBuffer\<close>; the argument counts the samples
  still to be computed, \<^verbatim>\<open>sampleCount - sample\<close>.
\<close>

fun fill_buffer :: "engine \<Rightarrow> nat \<Rightarrow> (i16 list \<times> engine) option" where
  "fill_buffer st 0 = Some ([], st)"
| "fill_buffer st (Suc n) =
     (let (output, st1) = processSample st
      in case to_int16 (fmul output (Val 32767)) of
           None \<Rightarrow> None
         | Some v \<Rightarrow>
             (case fill_buffer st1 n of
                None \<Rightarrow> None
              | Some (vs, st2) \<Rightarrow> Some (v # vs, st2)))"

text \<open>
  \<^verbatim>\<open>fwrite\<close> writes an object as it lies in memory: on the little-endian machines the
  program is built for, least significant byte first.
\<close>

definition le16 :: "16 word \<Rightarrow> u8 list" where
  "le16 w = [ucast w, ucast (drop_bit 8 w)]"

definition le32 :: "u32 \<Rightarrow> u8 list" where
  "le32 w = [ucast w, ucast (drop_bit 8 w), ucast (drop_bit 16 w), ucast (drop_bit 24 w)]"

definition ascii :: "string \<Rightarrow> u8 list" where
  "ascii s = map (\<lambda>c. word_of_nat (of_char c)) s"

text \<open>
  \<^verbatim>\<open>main\<close> (lines 71 to 118). The result is \<open>None\<close> when the run has undefined behaviour
  or ends by an exception (a conversion out of range, a signed overflow, an array of
  negative size); otherwise it is the exit status and the bytes of \<^verbatim>\<open>output.wav\<close>, if the
  file was written. Whether \<^verbatim>\<open>fopen\<close> succeeds is the parameter \<open>fopen_ok\<close>.
\<close>

definition main :: "engine \<Rightarrow> fl \<Rightarrow> bool \<Rightarrow> (int \<times> u8 list option) option" where
  "main globals lengthInSeconds fopen_ok =
     (let st = startSound (reset globals)
      in case double_to_int INT_MIN INT_MAX (fmul (sampleRate st) lengthInSeconds) of
           None \<Rightarrow> None
         | Some sampleCount \<Rightarrow>
             if sampleCount < 0 then None
             else
               (case fill_buffer st (nat sampleCount) of
                  None \<Rightarrow> None
                | Some (outputBuffer, st') \<Rightarrow>
                    if \<not> fopen_ok then Some (- 1, None)
                    else if INT_MAX < sampleCount * 2 then None
                    else
                      (case double_to_int 0 (2 ^ 32 - 1) (sampleRate st') of
                         None \<Rightarrow> None
                       | Some sr \<Rightarrow>
                           (let dataLength = (word_of_int (sampleCount * 2) :: u32);
                                length' = 44 + dataLength;
                                blockSize = (16 :: u32);
                                format = (1 :: u16);
                                channels = (1 :: u16);
                                srate = (word_of_int sr :: u32);
                                bytesPerSecond = srate * 2;
                                bytesPerSample = (2 :: u16);
                                bitsPerSample = (16 :: u16)
                            in Some (0, Some
                                 (ascii ''RIFF'' @ le32 length' @ ascii ''WAVE'' @ ascii ''fmt ''
                                  @ le32 blockSize @ le16 format @ le16 channels @ le32 srate
                                  @ le32 bytesPerSecond @ le16 bytesPerSample
                                  @ le16 bitsPerSample @ ascii ''data'' @ le32 dataLength
                                  @ concat (map le16 outputBuffer)))))))"

section \<open>Notions of the specification\<close>

text \<open>
  A processor whose numeric members are all zero and whose sample rate is 48 kHz: a
  concrete state for the examples below.
\<close>

definition engine0 :: engine where
  "engine0 = \<lparr>sampleRate = Val 48000, activeNote = 0, frequency = Val 0, amplitude = Val 0,
     env = Val 0, envSlope = Val 0, phase = Val 0, inc_osc = Val 0\<rparr>"

text \<open>
  The output guard in the words of the specification: a sample that is NaN, infinite or of
  magnitude above 2 silences the span; a sample of magnitude above 1 is clamped to \<open>\<plusminus>1\<close>.
\<close>

fun guard_silences :: "fl \<Rightarrow> bool" where
  "guard_silences (Val v) = (2 < \<bar>v\<bar>)"
| "guard_silences x = True"

fun guard_clamp :: "fl \<Rightarrow> fl" where
  "guard_clamp (Val v) = (if 1 < \<bar>v\<bar> then Val (sgn v) else Val v)"
| "guard_clamp x = x"

text \<open>
  The event scheduler in the words of the specification. A step either renders the frames
  from the cursor up to (not including) an offset, or applies an event. The cursor starts
  at 0; for each event in order, the frames from the cursor to the event's offset are
  rendered when the offset is beyond the cursor, which then moves to the offset, and the
  event is applied; after the last event the frames from the cursor to \<open>N\<close> are rendered
  when there are any.
\<close>

datatype step = Render int int | Apply midi_event

fun schedule :: "int \<Rightarrow> midi_event list \<Rightarrow> int \<Rightarrow> step list" where
  "schedule cursor [] N = (if cursor < N then [Render cursor N] else [])"
| "schedule cursor (e # es) N =
     (if cursor < samplePosition e
      then Render cursor (samplePosition e) # Apply e # schedule (samplePosition e) es N
      else Apply e # schedule cursor es N)"

fun frames :: "step \<Rightarrow> int list" where
  "frames (Render a b) = [a..b - 1]"
| "frames (Apply e) = []"

fun applied :: "step list \<Rightarrow> midi_event list" where
  "applied [] = []"
| "applied (Render a b # ss) = applied ss"
| "applied (Apply e # ss) = e # applied ss"

text \<open>
  The MIDI effect of an event: the status byte is the first byte, the note and the velocity
  are the second and third byte (0 when absent). High nibble 8 is a note-off; high nibble 9
  is a note-off when the velocity is 0 and a note-on otherwise; any other status byte, and
  any event of more than three bytes, has no effect.
\<close>

definition status_byte :: "midi_event \<Rightarrow> u8" where
  "status_byte e = (case data e of [] \<Rightarrow> 0 | d # ds \<Rightarrow> d)"

definition note_byte :: "midi_event \<Rightarrow> u8" where
  "note_byte e = (case data e of d # n # ds \<Rightarrow> n | _ \<Rightarrow> 0)"

definition velocity_byte :: "midi_event \<Rightarrow> u8" where
  "velocity_byte e = (case data e of [d, n, v] \<Rightarrow> v | _ \<Rightarrow> 0)"

definition midi_effect :: "engine \<Rightarrow> midi_event \<Rightarrow> engine" where
  "midi_effect st e =
     (if 3 < length (data e) then st
      else if status_byte e AND 0xF0 = 0x80 then noteOff st (uint (note_byte e))
      else if status_byte e AND 0xF0 = 0x90 then
        (if velocity_byte e = 0 then noteOff st (uint (note_byte e))
         else noteOn st (uint (note_byte e)) (uint (velocity_byte e)))
      else st)"

fun run :: "step list \<Rightarrow> engine \<Rightarrow> audio_buffer \<Rightarrow> (engine \<times> audio_buffer) option" where
  "run [] st buffer = Some (st, buffer)"
| "run (Render a b # ss) st buffer =
     (case render st buffer (b - a) a of
        None \<Rightarrow> None
      | Some (st', buffer') \<Rightarrow> run ss st' buffer')"
| "run (Apply e # ss) st buffer = run ss (midi_effect st e) buffer"

text \<open>The channels of a buffer have one length.\<close>

definition wf_buffer :: "audio_buffer \<Rightarrow> bool" where
  "wf_buffer buffer =
     (case chan1 buffer of None \<Rightarrow> True | Some r \<Rightarrow> length r = length (chan0 buffer))"

text \<open>
  The float samples the oscillator hands to the file sink: the outputs of \<open>n\<close> successive
  calls of \<^verbatim>\<open>processSample\<close>. And the bytes of the file a run of \<open>main\<close> has written.
\<close>

fun osc_outputs :: "engine \<Rightarrow> nat \<Rightarrow> fl list" where
  "osc_outputs st 0 = []"
| "osc_outputs st (Suc n) = fst (processSample st) # osc_outputs (snd (processSample st)) n"

definition written_file :: "(int \<times> u8 list option) option \<Rightarrow> u8 list" where
  "written_file r = (case r of Some (status, Some bytes) \<Rightarrow> bytes | _ \<Rightarrow> [])"

section \<open>The output guard\<close>

lemma silence_iff:
  "(isnan x \<or> isinf x \<or> flt x (Val (- 2)) \<or> flt (Val 2) x) = guard_silences x"
  by (cases x) auto

lemma clamp_write:
  assumes "\<not> guard_silences x" and "b ! i = x"
  shows "(if flt x (Val (- 1)) then b[i := Val (- 1)]
          else if flt (Val 1) x then b[i := Val 1] else b) = b[i := guard_clamp x]"
proof (cases x)
  case (Val v)
  have "b[i := Val v] = b"
    using list_update_id [of b i] assms(2) Val by simp
  then show ?thesis using Val by auto
qed (use assms in simp_all)

lemma protect_loop_step:
  assumes "i < length b" and "\<not> guard_silences (b ! i)"
  shows "protect_loop b i = protect_loop (b[i := guard_clamp (b ! i)]) (Suc i)"
proof -
  have "protect_loop b i =
      protect_loop (if flt (b ! i) (Val (- 1)) then b[i := Val (- 1)]
          else if flt (Val 1) (b ! i) then b[i := Val 1] else b) (Suc i)"
    using assms by (subst protect_loop.simps) (simp add: Let_def silence_iff)
  then show ?thesis
    using clamp_write [OF assms(2) refl] by simp
qed

lemma protect_loop_stop:
  "i < length b \<Longrightarrow> guard_silences (b ! i) \<Longrightarrow>
   protect_loop b i = replicate (length b) (Val 0)"
  by (subst protect_loop.simps) (simp add: Let_def silence_iff)

lemma protect_loop_end: "length b \<le> i \<Longrightarrow> protect_loop b i = b"
  by (subst protect_loop.simps) simp

text \<open>
  The loop started at index \<open>i\<close>: the samples before \<open>i\<close> stay as they are, and the rest is
  either clamped sample by sample or, when one of them silences, the span is zeroed.
\<close>

lemma protect_loop_char:
  "i \<le> length b \<Longrightarrow> protect_loop b i =
     (if list_ex guard_silences (drop i b) then replicate (length b) (Val 0)
      else take i b @ map guard_clamp (drop i b))"
proof (induction "length b - i" arbitrary: b i)
  case 0
  then show ?case by (simp add: protect_loop_end)
next
  case (Suc n)
  then have i: "i < length b" by simp
  have d: "drop i b = b ! i # drop (Suc i) b"
    using i by (simp add: Cons_nth_drop_Suc)
  show ?case
  proof (cases "guard_silences (b ! i)")
    case True
    then show ?thesis using i d by (simp add: protect_loop_stop)
  next
    case False
    let ?b = "b[i := guard_clamp (b ! i)]"
    have n: "n = length ?b - Suc i" using Suc.hyps(2) by simp
    have le: "Suc i \<le> length ?b" using i by simp
    have "protect_loop b i = protect_loop ?b (Suc i)"
      using i False by (rule protect_loop_step)
    also have "\<dots> = (if list_ex guard_silences (drop (Suc i) ?b)
        then replicate (length ?b) (Val 0)
        else take (Suc i) ?b @ map guard_clamp (drop (Suc i) ?b))"
      by (rule Suc.hyps(1) [OF n le])
    also have "\<dots> = (if list_ex guard_silences (drop i b) then replicate (length b) (Val 0)
        else take i b @ map guard_clamp (drop i b))"
      using i False d by (simp add: take_Suc_conv_app_nth)
    finally show ?thesis .
  qed
qed

lemma length_protect_loop: "length (protect_loop b 0) = length b"
  by (simp add: protect_loop_char)

text \<open>
  C2. A span handed to \<^verbatim>\<open>protectYourEars\<close> that holds a sample which is NaN, infinite or
  of magnitude above 2 comes back all zero, and the loop stops at the first such sample it
  reaches; a span with no such sample comes back with every sample of magnitude above 1
  clamped to \<open>\<plusminus>1\<close> and every other sample (magnitude exactly 1 included) unchanged.
\<close>

theorem protectYourEars_silences_or_clamps:
  "(list_ex guard_silences b \<longrightarrow>
      protectYourEars (Some b) = Some (replicate (length b) (Val 0)))
   \<and> (\<not> list_ex guard_silences b \<longrightarrow> protectYourEars (Some b) = Some (map guard_clamp b))
   \<and> (\<forall>i. i < length b \<and> guard_silences (b ! i) \<longrightarrow>
         protect_loop b i = replicate (length b) (Val 0))"
proof (intro conjI allI impI)
  show "protectYourEars (Some b) = Some (replicate (length b) (Val 0))"
    if "list_ex guard_silences b"
    using that by (simp add: protectYourEars_def protect_loop_char)
  show "protectYourEars (Some b) = Some (map guard_clamp b)" if "\<not> list_ex guard_silences b"
    using that by (simp add: protectYourEars_def protect_loop_char)
  show "protect_loop b i = replicate (length b) (Val 0)"
    if "i < length b \<and> guard_silences (b ! i)" for i
    using that by (simp add: protect_loop_stop)
qed

theorem protectYourEars_silences_or_clamps_witness:
  "protectYourEars (Some [Val 0.25, NaN, Val 1.5]) = Some [Val 0, Val 0, Val 0]
   \<and> protect_loop [Val 0.25, NaN, Val 1.5] 1 = [Val 0, Val 0, Val 0]
   \<and> protectYourEars (Some [Val 0.25, Val 1.5, Val (- 1), Val (- 1.25), Val 2])
       = Some [Val 0.25, Val 1, Val (- 1), Val (- 1), Val 1]"
proof -
  have a: "list_ex guard_silences [Val 0.25, NaN, Val 1.5]" by simp
  have b: "(1::nat) < length [Val 0.25, NaN, Val 1.5]
      \<and> guard_silences ([Val 0.25, NaN, Val 1.5] ! 1)" by simp
  have c: "\<not> list_ex guard_silences [Val 0.25, Val 1.5, Val (- 1), Val (- 1.25), Val 2]"
    by simp
  show ?thesis
    using protectYourEars_silences_or_clamps [of "[Val 0.25, NaN, Val 1.5]"]
      protectYourEars_silences_or_clamps
        [of "[Val 0.25, Val 1.5, Val (- 1), Val (- 1.25), Val 2]"] a b c
    by (simp add: numeral_3_eq_3)
qed

section \<open>Splitting a block at its events\<close>

lemma dispatch_midi_effect:
  "data e \<noteq> [] \<Longrightarrow> dispatch st e = Some (midi_effect st e)"
  by (cases "data e"; cases "tl (data e)"; cases "tl (tl (data e))")
     (auto simp add: dispatch_def midi_effect_def numBytes_def handleMIDI_def Let_def
       status_byte_def note_byte_def velocity_byte_def word_greater_zero_iff split: list.splits)

lemma length_put_span:
  "off + length ys \<le> length xs \<Longrightarrow> length (put_span off ys xs) = length xs"
  by (simp add: put_span_def)

lemma length_span: "off + n \<le> length xs \<Longrightarrow> length (span off n xs) = n"
  by (simp add: span_def)

lemma render_loop_lengths:
  "render_loop st l r n i = (st', l', r') \<Longrightarrow>
     length l' = length l \<and> rel_option (\<lambda>x y. length y = length x) r r'"
proof (induction st l r n i rule: render_loop.induct)
  case (1 st l r n i)
  show ?case
  proof (cases "i < n")
    case True
    obtain out st1 where rs: "render_sample st = (out, st1)" by (cases "render_sample st")
    let ?l = "l[i := out]"
    let ?r = "case r of None \<Rightarrow> None | Some x \<Rightarrow> Some (x[i := out])"
    have "render_loop st1 ?l ?r n (i + 1) = (st', l', r')"
      using "1.prems" True rs by (subst (asm) render_loop.simps) (simp add: Let_def)
    from "1.IH" [OF True refl rs [symmetric] refl refl this]
    show ?thesis by (cases r) (auto simp add: option.rel_sel)
  next
    case False
    then show ?thesis using "1.prems"
      by (subst (asm) render_loop.simps) (auto simp add: option.rel_refl)
  qed
qed

lemma render_Some:
  assumes "wf_buffer buf" and "0 \<le> off" and "off + n \<le> getNumSamples buf"
  shows "\<exists>st' buf'. render st buf n off = Some (st', buf') \<and> wf_buffer buf'
           \<and> getNumSamples buf' = getNumSamples buf"
proof (cases "n \<le> 0")
  case True
  then show ?thesis using assms by (simp add: render_def)
next
  case False
  let ?off = "nat off" and ?n = "nat n"
  let ?L = "span ?off ?n (chan0 buf)" and ?R = "map_option (span ?off ?n) (chan1 buf)"
  obtain st' l r where rl: "render_loop st ?L ?R ?n 0 = (st', l, r)"
    by (cases "render_loop st ?L ?R ?n 0")
  have in0: "in_channel off n (chan0 buf)"
    using assms by (simp add: in_channel_def getNumSamples_def)
  have in1: "\<And>c. chan1 buf = Some c \<Longrightarrow> in_channel off n c"
    using assms by (auto simp add: in_channel_def getNumSamples_def wf_buffer_def)
  have bound: "?off + ?n \<le> length (chan0 buf)"
    using assms False by (simp add: getNumSamples_def)
  from render_loop_lengths [OF rl]
  have ll: "length l = ?n" and rr: "rel_option (\<lambda>x y. length y = length x) ?R r"
    using bound by (simp_all add: length_span)
  show ?thesis
  proof (cases "chan1 buf")
    case None
    then have "r = None" using rr by simp
    then show ?thesis
      using False in0 None rl ll bound assms(1)
      by (simp add: render_def Let_def protectYourEars_def length_protect_loop
          length_put_span getNumSamples_def wf_buffer_def)
  next
    case (Some c)
    then have lc: "length c = length (chan0 buf)" using assms(1) by (simp add: wf_buffer_def)
    from rr Some obtain y where y: "r = Some y" "length y = ?n"
      using bound lc by (cases r) (auto simp add: length_span)
    show ?thesis
      using False in0 in1 [OF Some] Some rl ll bound y lc
      by (simp add: render_def Let_def protectYourEars_def length_protect_loop
          length_put_span getNumSamples_def wf_buffer_def)
  qed
qed

lemma split_loop_run:
  assumes "wf_buffer buf" and "0 \<le> c" and "c \<le> getNumSamples buf"
    and "\<forall>e\<in>set evs. samplePosition e < getNumSamples buf \<and> data e \<noteq> []"
  shows "(case split_loop st buf c evs of
            None \<Rightarrow> None
          | Some (st1, buf1, off) \<Rightarrow>
              (let samplesLastSegment = getNumSamples buf1 - off
               in if 0 < samplesLastSegment
                  then map_option (\<lambda>(st', buf'). (st', buf', []))
                     (render st1 buf1 samplesLastSegment off)
                  else Some (st1, buf1, [])))
         = map_option (\<lambda>(st', buf'). (st', buf', []))
             (run (schedule c evs (getNumSamples buf)) st buf)
       \<and> (\<exists>st' buf'. run (schedule c evs (getNumSamples buf)) st buf = Some (st', buf')
             \<and> wf_buffer buf' \<and> getNumSamples buf' = getNumSamples buf)"
  using assms
proof (induction evs arbitrary: st buf c)
  case Nil
  from render_Some [OF Nil(1,2), of "getNumSamples buf - c" st]
  obtain st' buf' where "render st buf (getNumSamples buf - c) c = Some (st', buf')"
    "wf_buffer buf'" "getNumSamples buf' = getNumSamples buf" by auto
  then show ?case using Nil by (auto simp add: Let_def)
next
  case (Cons e es)
  have d: "dispatch s e = Some (midi_effect s e)" for s
    using Cons.prems(4) by (simp add: dispatch_midi_effect)
  show ?case
  proof (cases "c < samplePosition e")
    case True
    have "c + (samplePosition e - c) \<le> getNumSamples buf" using Cons.prems(4) by simp
    from render_Some [OF Cons.prems(1,2) this, of st]
    obtain st' buf' where r: "render st buf (samplePosition e - c) c = Some (st', buf')"
      "wf_buffer buf'" "getNumSamples buf' = getNumSamples buf" by auto
    have "\<forall>e\<in>set es. samplePosition e < getNumSamples buf' \<and> data e \<noteq> []"
      using Cons.prems(4) r(3) by simp
    from Cons.IH [OF r(2) _ _ this, of "samplePosition e" "midi_effect st' e"]
    show ?thesis using True r d Cons.prems by (simp add: Let_def)
  next
    case False
    have "\<forall>e\<in>set es. samplePosition e < getNumSamples buf \<and> data e \<noteq> []"
      using Cons.prems(4) by simp
    from Cons.IH [OF Cons.prems(1,2,3) this, of "midi_effect st e"]
    show ?thesis using False d by (simp add: Let_def)
  qed
qed

lemma upto_join: "i \<le> j \<Longrightarrow> j \<le> k + 1 \<Longrightarrow> [i..k] = [i..j - 1] @ [j..k]"
  by (cases "j = k + 1") (simp_all add: upto_split1)

lemma frames_schedule:
  "c \<le> N \<Longrightarrow> \<forall>e\<in>set evs. samplePosition e \<le> N \<Longrightarrow>
   concat (map frames (schedule c evs N)) = [c..N - 1]"
proof (induction evs arbitrary: c)
  case Nil
  then show ?case by simp
next
  case (Cons e es)
  show ?case
  proof (cases "c < samplePosition e")
    case True
    have "[c..N - 1] = [c..samplePosition e - 1] @ [samplePosition e..N - 1]"
      using True Cons.prems by (intro upto_join) auto
    then show ?thesis using True Cons by simp
  next
    case False
    then show ?thesis using Cons by simp
  qed
qed

lemma applied_schedule: "applied (schedule c evs N) = evs"
  by (induction evs arbitrary: c) auto

lemma applied_append: "applied (A @ B) = applied A @ applied B"
  by (induction A rule: applied.induct) auto

lemma frames_before_event:
  "sorted (map samplePosition evs) \<Longrightarrow> \<forall>e\<in>set evs. c \<le> samplePosition e \<Longrightarrow>
   schedule c evs N = A @ Apply e # B \<Longrightarrow>
   concat (map frames A) = [c..samplePosition e - 1]"
proof (induction evs arbitrary: c A)
  case Nil
  then show ?case by (auto split: if_splits simp add: Cons_eq_append_conv)
next
  case (Cons e0 es)
  have s: "sorted (map samplePosition es)" and
    le: "\<forall>x\<in>set es. samplePosition e0 \<le> samplePosition x"
    using Cons.prems(1) by auto
  show ?case
  proof (cases "c < samplePosition e0")
    case True
    then have eq: "Render c (samplePosition e0) # Apply e0 # schedule (samplePosition e0) es N
        = A @ Apply e # B"
      using Cons.prems(3) by simp
    then obtain A1 where A1: "A = Render c (samplePosition e0) # A1"
      "Apply e0 # schedule (samplePosition e0) es N = A1 @ Apply e # B"
      by (cases A) auto
    show ?thesis
    proof (cases A1)
      case Nil
      then show ?thesis using A1 by simp
    next
      case (Cons x A2)
      then have A2: "schedule (samplePosition e0) es N = A2 @ Apply e # B" and x: "x = Apply e0"
        using A1(2) by auto
      have "e \<in> set (applied (schedule (samplePosition e0) es N))"
        unfolding A2 by (simp add: applied_append)
      then have "e \<in> set es" by (simp add: applied_schedule)
      then have pe: "samplePosition e0 \<le> samplePosition e" using le by simp
      have "concat (map frames A2) = [samplePosition e0..samplePosition e - 1]"
        using Cons.IH [OF s le A2] .
      moreover have "[c..samplePosition e - 1]
          = [c..samplePosition e0 - 1] @ [samplePosition e0..samplePosition e - 1]"
        using True pe by (intro upto_join) auto
      ultimately show ?thesis using A1(1) Cons x by simp
    qed
  next
    case False
    then have c: "c = samplePosition e0" using Cons.prems(2) by simp
    have eq: "Apply e0 # schedule c es N = A @ Apply e # B"
      using False Cons.prems(3) by simp
    show ?thesis
    proof (cases A)
      case Nil
      then show ?thesis using eq c by simp
    next
      case (Cons x A2)
      then have A2: "schedule c es N = A2 @ Apply e # B" and x: "x = Apply e0"
        using eq by auto
      have "concat (map frames A2) = [c..samplePosition e - 1]"
        using Cons.IH [OF s _ A2] le c by simp
      then show ?thesis using Cons x by simp
    qed
  qed
qed

text \<open>
  C1. For a block of \<open>N\<close> frames and events in time order with offsets in \<open>[0, N)\<close>,
  \<^verbatim>\<open>splitBufferByEvents\<close> returns (no access leaves the block) and does what the schedule of
  the specification does, step by step, leaving the message buffer empty. The frames the
  schedule renders are \<open>0, \<dots>, N - 1\<close>, each once and in order; the events are applied in the
  order given; an event is applied when exactly the frames before its offset have been
  rendered; and between two events of one offset no frame is rendered.
\<close>

theorem splitBufferByEvents_schedule:
  "wf_buffer buf \<and> N = getNumSamples buf \<and> sorted (map samplePosition evs)
     \<and> (\<forall>e\<in>set evs. 0 \<le> samplePosition e \<and> samplePosition e < N \<and> data e \<noteq> []) \<longrightarrow>
   splitBufferByEvents st buf evs
     = map_option (\<lambda>(st', buf'). (st', buf', [])) (run (schedule 0 evs N) st buf)
   \<and> (\<exists>st' buf'. splitBufferByEvents st buf evs = Some (st', buf', []))
   \<and> concat (map frames (schedule 0 evs N)) = [0..N - 1]
   \<and> applied (schedule 0 evs N) = evs
   \<and> (\<forall>A e B. schedule 0 evs N = A @ Apply e # B \<longrightarrow>
         concat (map frames A) = [0..samplePosition e - 1])
   \<and> (\<forall>A e1 M e2 B. schedule 0 evs N = A @ Apply e1 # M @ Apply e2 # B
         \<and> samplePosition e1 = samplePosition e2 \<longrightarrow> concat (map frames M) = [])"
proof (intro impI)
  assume a: "wf_buffer buf \<and> N = getNumSamples buf \<and> sorted (map samplePosition evs)
     \<and> (\<forall>e\<in>set evs. 0 \<le> samplePosition e \<and> samplePosition e < N \<and> data e \<noteq> [])"
  then have wf: "wf_buffer buf" and N: "N = getNumSamples buf"
    and srt: "sorted (map samplePosition evs)"
    and ev: "\<forall>e\<in>set evs. samplePosition e < getNumSamples buf \<and> data e \<noteq> []"
    and pos: "\<forall>e\<in>set evs. 0 \<le> samplePosition e"
    and below: "\<forall>e\<in>set evs. samplePosition e \<le> N"
    by auto
  have N0: "0 \<le> getNumSamples buf" by (simp add: getNumSamples_def)
  from split_loop_run [where c = 0 and st = st, OF wf _ N0 ev]
  have run: "splitBufferByEvents st buf evs
      = map_option (\<lambda>(st', buf'). (st', buf', [])) (run (schedule 0 evs N) st buf)"
    and some: "\<exists>st' buf'. run (schedule 0 evs N) st buf = Some (st', buf')"
    unfolding splitBufferByEvents_def N by auto
  have before: "concat (map frames A) = [0..samplePosition e - 1]"
    if "schedule 0 evs N = A @ Apply e # B" for A e B
    using frames_before_event [OF srt pos that] .
  have between: "concat (map frames M) = []"
    if "schedule 0 evs N = A @ Apply e1 # M @ Apply e2 # B
         \<and> samplePosition e1 = samplePosition e2" for A e1 M e2 B
  proof -
    have "schedule 0 evs N = (A @ Apply e1 # M) @ Apply e2 # B" using that by simp
    from before [OF this] before [of A e1 "M @ Apply e2 # B"] that
    show ?thesis by simp
  qed
  show "splitBufferByEvents st buf evs
     = map_option (\<lambda>(st', buf'). (st', buf', [])) (run (schedule 0 evs N) st buf)
   \<and> (\<exists>st' buf'. splitBufferByEvents st buf evs = Some (st', buf', []))
   \<and> concat (map frames (schedule 0 evs N)) = [0..N - 1]
   \<and> applied (schedule 0 evs N) = evs
   \<and> (\<forall>A e B. schedule 0 evs N = A @ Apply e # B \<longrightarrow>
         concat (map frames A) = [0..samplePosition e - 1])
   \<and> (\<forall>A e1 M e2 B. schedule 0 evs N = A @ Apply e1 # M @ Apply e2 # B
         \<and> samplePosition e1 = samplePosition e2 \<longrightarrow> concat (map frames M) = [])"
  proof (intro conjI allI impI)
    show "splitBufferByEvents st buf evs
      = map_option (\<lambda>(st', buf'). (st', buf', [])) (run (schedule 0 evs N) st buf)"
      by (rule run)
    show "\<exists>st' buf'. splitBufferByEvents st buf evs = Some (st', buf', [])"
      using run some by auto
    show "concat (map frames (schedule 0 evs N)) = [0..N - 1]"
      using frames_schedule [OF _ below] N N0 by simp
    show "applied (schedule 0 evs N) = evs" by (rule applied_schedule)
  qed (use before between in blast)+
qed

theorem splitBufferByEvents_schedule_witness:
  "schedule 0 [\<lparr>samplePosition = 1, data = [0x90, 69, 127]\<rparr>,
               \<lparr>samplePosition = 1, data = [0x80, 69, 0]\<rparr>] 4
     = [Render 0 1, Apply \<lparr>samplePosition = 1, data = [0x90, 69, 127]\<rparr>,
        Apply \<lparr>samplePosition = 1, data = [0x80, 69, 0]\<rparr>, Render 1 4]
   \<and> splitBufferByEvents engine0
        \<lparr>chan0 = [NaN, NaN, NaN, NaN], chan1 = Some [NaN, NaN, NaN, NaN]\<rparr>
        [\<lparr>samplePosition = 1, data = [0x90, 69, 127]\<rparr>,
         \<lparr>samplePosition = 1, data = [0x80, 69, 0]\<rparr>]
      = map_option (\<lambda>(st', buf'). (st', buf', []))
         (run [Render 0 1, Apply \<lparr>samplePosition = 1, data = [0x90, 69, 127]\<rparr>,
               Apply \<lparr>samplePosition = 1, data = [0x80, 69, 0]\<rparr>, Render 1 4]
            engine0 \<lparr>chan0 = [NaN, NaN, NaN, NaN], chan1 = Some [NaN, NaN, NaN, NaN]\<rparr>)
   \<and> (\<exists>st' buf'. splitBufferByEvents engine0
        \<lparr>chan0 = [NaN, NaN, NaN, NaN], chan1 = Some [NaN, NaN, NaN, NaN]\<rparr>
        [\<lparr>samplePosition = 1, data = [0x90, 69, 127]\<rparr>,
         \<lparr>samplePosition = 1, data = [0x80, 69, 0]\<rparr>] = Some (st', buf', []))
   \<and> concat (map frames [Render 0 1, Apply \<lparr>samplePosition = 1, data = [0x90, 69, 127]\<rparr>,
        Apply \<lparr>samplePosition = 1, data = [0x80, 69, 0]\<rparr>, Render 1 4]) = [0, 1, 2, 3]"
proof -
  let ?buf = "\<lparr>chan0 = [NaN, NaN, NaN, NaN], chan1 = Some [NaN, NaN, NaN, NaN]\<rparr>"
  let ?evs = "[\<lparr>samplePosition = 1, data = [0x90, 69, 127 :: u8]\<rparr>,
               \<lparr>samplePosition = 1, data = [0x80, 69, 0]\<rparr>]"
  have h: "wf_buffer ?buf \<and> 4 = getNumSamples ?buf \<and> sorted (map samplePosition ?evs)
     \<and> (\<forall>e\<in>set ?evs. 0 \<le> samplePosition e \<and> samplePosition e < 4 \<and> data e \<noteq> [])"
    by (simp add: wf_buffer_def getNumSamples_def)
  have s: "schedule 0 ?evs 4
     = [Render 0 1, Apply \<lparr>samplePosition = 1, data = [0x90, 69, 127]\<rparr>,
        Apply \<lparr>samplePosition = 1, data = [0x80, 69, 0]\<rparr>, Render 1 4]"
    by simp
  have u: "[0..4 - 1] = [0, 1, 2, 3 :: int]" by (simp add: upto_rec1)
  note t = splitBufferByEvents_schedule [of ?buf 4 ?evs engine0, rule_format, OF h]
  have c1: "splitBufferByEvents engine0 ?buf ?evs
      = map_option (\<lambda>(st', buf'). (st', buf', [])) (run (schedule 0 ?evs 4) engine0 ?buf)"
    using t by (rule conjunct1)
  have c2: "\<exists>st' buf'. splitBufferByEvents engine0 ?buf ?evs = Some (st', buf', [])"
    using t by blast
  have c3: "concat (map frames (schedule 0 ?evs 4)) = [0..4 - 1]"
    using t by blast
  show ?thesis
    using s c1 [unfolded s] c2 c3 [unfolded s u] by (intro conjI)
qed

text \<open>
  C10. An event of more than three bytes, or with a status byte whose high nibble is
  neither 8 nor 9, changes no state, and the loop of \<^verbatim>\<open>splitBufferByEvents\<close> treats it as any
  event: when its offset is beyond the cursor, the frames from the cursor to its offset are
  rendered and the loop goes on with the cursor at its offset and the state the rendering
  left; otherwise the loop goes on at once.
\<close>

theorem ignored_event_still_splits:
  "data e = d0 # ds
     \<and> (3 < length (data e) \<or> (d0 AND 0xF0 \<noteq> 0x80 \<and> d0 AND 0xF0 \<noteq> 0x90)) \<longrightarrow>
   dispatch st e = Some st
   \<and> split_loop st buf c (e # es) =
       (if c < samplePosition e then
          (case render st buf (samplePosition e - c) c of
             None \<Rightarrow> None
           | Some (st', buf') \<Rightarrow> split_loop st' buf' (samplePosition e) es)
        else split_loop st buf c es)"
proof (intro impI)
  assume a: "data e = d0 # ds
     \<and> (3 < length (data e) \<or> (d0 AND 0xF0 \<noteq> 0x80 \<and> d0 AND 0xF0 \<noteq> 0x90))"
  have d: "dispatch s e = Some s" for s
    using a by (auto simp add: dispatch_def numBytes_def handleMIDI_def Let_def)
  show "dispatch st e = Some st
   \<and> split_loop st buf c (e # es) =
       (if c < samplePosition e then
          (case render st buf (samplePosition e - c) c of
             None \<Rightarrow> None
           | Some (st', buf') \<Rightarrow> split_loop st' buf' (samplePosition e) es)
        else split_loop st buf c es)"
    by (simp add: d Let_def split: option.splits)
qed

theorem ignored_event_still_splits_witness:
  "dispatch (noteOn engine0 69 127) \<lparr>samplePosition = 2, data = [0xF0, 1, 2, 0xF7]\<rparr>
      = Some (noteOn engine0 69 127)
   \<and> dispatch (noteOn engine0 69 127) \<lparr>samplePosition = 2, data = [0xB0, 7, 100]\<rparr>
      = Some (noteOn engine0 69 127)
   \<and> split_loop (noteOn engine0 69 127) \<lparr>chan0 = [NaN, NaN, NaN, NaN], chan1 = None\<rparr> 0
        [\<lparr>samplePosition = 2, data = [0xB0, 7, 100]\<rparr>]
      = (case render (noteOn engine0 69 127) \<lparr>chan0 = [NaN, NaN, NaN, NaN], chan1 = None\<rparr> 2 0 of
           None \<Rightarrow> None
         | Some (st', buf') \<Rightarrow> Some (st', buf', 2))"
  using ignored_event_still_splits
      [of "\<lparr>samplePosition = 2, data = [0xF0, 1, 2, 0xF7]\<rparr>" "0xF0" "[1, 2, 0xF7]"
        "noteOn engine0 69 127"]
    ignored_event_still_splits
      [of "\<lparr>samplePosition = 2, data = [0xB0, 7, 100]\<rparr>" "0xB0" "[7, 100]"
        "noteOn engine0 69 127" "\<lparr>chan0 = [NaN, NaN, NaN, NaN], chan1 = None\<rparr>" 0 "[]"]
  by (simp split: option.splits)

section \<open>Oscillator, envelope and notes\<close>

lemma fadd_zero_left: "fadd (Val 0) x = x"
  by (cases x) simp_all

text \<open>
  C3, as the code has it. From a phase \<open>p\<close> in \<open>[0, TWO_PI]\<close> and an increment \<open>i\<close> in
  \<open>[0, TWO_PI)\<close>, \<^verbatim>\<open>processSample\<close> returns the amplitude times the sine of \<open>p\<close> and changes
  nothing but the phase, which becomes \<open>p + i - TWO_PI\<close> when \<open>p + i\<close> is strictly above
  \<open>TWO_PI\<close> and \<open>p + i\<close> otherwise. The new phase lies in \<open>[0, TWO_PI]\<close>; it is below \<open>TWO_PI\<close>
  unless \<open>p + i\<close> is exactly \<open>TWO_PI\<close>, and then it is \<open>TWO_PI\<close> itself.
\<close>

theorem processSample_phase_bound:
  "phase st = Val p \<and> inc_osc st = Val i \<and> 0 \<le> p \<and> p \<le> TWO_PI \<and> 0 \<le> i \<and> i < TWO_PI \<longrightarrow>
     fst (processSample st) = fmul (amplitude st) (Val (sin p))
     \<and> snd (processSample st)
         = st\<lparr>phase := Val (if TWO_PI < p + i then p + i - TWO_PI else p + i)\<rparr>
     \<and> phase (snd (processSample st))
         = Val (if TWO_PI < p + i then p + i - TWO_PI else p + i)
     \<and> 0 \<le> (if TWO_PI < p + i then p + i - TWO_PI else p + i)
     \<and> (if TWO_PI < p + i then p + i - TWO_PI else p + i) \<le> TWO_PI
     \<and> (p + i \<noteq> TWO_PI \<longrightarrow> (if TWO_PI < p + i then p + i - TWO_PI else p + i) < TWO_PI)
     \<and> (p + i = TWO_PI \<longrightarrow> phase (snd (processSample st)) = Val TWO_PI)"
  by (auto simp add: processSample_def Let_def fsub_def)

theorem processSample_phase_bound_witness:
  "phase (snd (processSample (engine0\<lparr>phase := Val 6, inc_osc := Val 1\<rparr>))) = Val (7 - TWO_PI)
   \<and> 0 \<le> 7 - TWO_PI \<and> 7 - TWO_PI < TWO_PI
   \<and> phase (snd (processSample
        (engine0\<lparr>phase := Val (TWO_PI / 2), inc_osc := Val (TWO_PI / 2)\<rparr>))) = Val TWO_PI
   \<and> phase (snd (processSample (engine0\<lparr>phase := Val 1, inc_osc := Val 2\<rparr>))) = Val 3
   \<and> (3::real) < TWO_PI"
proof -
  have a: "phase (engine0\<lparr>phase := Val 6, inc_osc := Val 1\<rparr>) = Val 6
      \<and> inc_osc (engine0\<lparr>phase := Val 6, inc_osc := Val 1\<rparr>) = Val 1
      \<and> (0::real) \<le> 6 \<and> 6 \<le> TWO_PI \<and> (0::real) \<le> 1 \<and> 1 < TWO_PI"
    by (simp add: TWO_PI_def)
  have b: "phase (engine0\<lparr>phase := Val (TWO_PI / 2), inc_osc := Val (TWO_PI / 2)\<rparr>)
        = Val (TWO_PI / 2)
      \<and> inc_osc (engine0\<lparr>phase := Val (TWO_PI / 2), inc_osc := Val (TWO_PI / 2)\<rparr>)
        = Val (TWO_PI / 2)
      \<and> 0 \<le> TWO_PI / 2 \<and> TWO_PI / 2 \<le> TWO_PI \<and> 0 \<le> TWO_PI / 2 \<and> TWO_PI / 2 < TWO_PI"
    by (simp add: TWO_PI_def)
  have c: "phase (engine0\<lparr>phase := Val 1, inc_osc := Val 2\<rparr>) = Val 1
      \<and> inc_osc (engine0\<lparr>phase := Val 1, inc_osc := Val 2\<rparr>) = Val 2
      \<and> (0::real) \<le> 1 \<and> 1 \<le> TWO_PI \<and> (0::real) \<le> 2 \<and> 2 < TWO_PI"
    by (simp add: TWO_PI_def)
  have "phase (snd (processSample (engine0\<lparr>phase := Val 6, inc_osc := Val 1\<rparr>)))
      = Val (if TWO_PI < 6 + 1 then 6 + 1 - TWO_PI else 6 + 1)"
    using processSample_phase_bound [rule_format, OF a] by blast
  then have 1: "phase (snd (processSample (engine0\<lparr>phase := Val 6, inc_osc := Val 1\<rparr>)))
      = Val (7 - TWO_PI)"
    by (simp add: TWO_PI_def)
  have "TWO_PI / 2 + TWO_PI / 2 = TWO_PI" by simp
  then have 2: "phase (snd (processSample
        (engine0\<lparr>phase := Val (TWO_PI / 2), inc_osc := Val (TWO_PI / 2)\<rparr>))) = Val TWO_PI"
    using processSample_phase_bound [rule_format, OF b] by blast
  have "phase (snd (processSample (engine0\<lparr>phase := Val 1, inc_osc := Val 2\<rparr>)))
      = Val (if TWO_PI < 1 + 2 then 1 + 2 - TWO_PI else 1 + 2)"
    using processSample_phase_bound [rule_format, OF c] by blast
  then have 3: "phase (snd (processSample (engine0\<lparr>phase := Val 1, inc_osc := Val 2\<rparr>)))
      = Val 3"
    by (simp add: TWO_PI_def)
  show ?thesis using 1 2 3 by (simp add: TWO_PI_def)
qed

text \<open>
  The claim C3 as stated fails: at 880 Hz sample rate the note 69 (440 Hz) has an increment
  of half of \<open>TWO_PI\<close>; the first call leaves the phase at half of \<open>TWO_PI\<close>, inside
  \<open>[0, TWO_PI)\<close>, and the second leaves it at \<open>TWO_PI\<close>, which the test \<^verbatim>\<open>phase > TWO_PI\<close>
  lets through.
\<close>

theorem processSample_phase_reaches_TWO_PI:
  "inc_osc (noteOn (prepareToPlay engine0 (Val 880)) 69 127) = Val (TWO_PI / 2)
   \<and> phase (snd (processSample (noteOn (prepareToPlay engine0 (Val 880)) 69 127)))
       = Val (TWO_PI / 2)
   \<and> 0 \<le> TWO_PI / 2 \<and> TWO_PI / 2 < TWO_PI
   \<and> phase (snd (processSample (snd (processSample
        (noteOn (prepareToPlay engine0 (Val 880)) 69 127))))) = Val TWO_PI
   \<and> \<not> TWO_PI < TWO_PI"
  by (simp add: noteOn_def prepareToPlay_def reset_def startSound_def engine0_def
      processSample_def Let_def fsub_def TWO_PI_def attackTime_def)

text \<open>
  C4. From a level in \<open>[0, 1]\<close> and with any slope, finite or infinite, one pass of the
  loop body of \<^verbatim>\<open>render\<close> leaves the level in \<open>[0, 1]\<close> and the slope as it was; when the
  voice sounds, the sample written is the oscillator's output times the level after the
  clamp.
\<close>

theorem render_sample_env_bound:
  "env st = Val l \<and> 0 \<le> l \<and> l \<le> 1 \<and> envSlope st \<noteq> NaN \<longrightarrow>
     (\<exists>l'. env (snd (render_sample st)) = Val l' \<and> 0 \<le> l' \<and> l' \<le> 1)
     \<and> envSlope (snd (render_sample st)) = envSlope st
     \<and> (0 < activeNote st \<or> 0 < l \<longrightarrow>
          fst (render_sample st)
            = fmul (fst (processSample st)) (env (snd (render_sample st))))"
  by (cases "envSlope st")
    (auto simp add: render_sample_def processSample_def Let_def fadd_zero_left
      split: prod.splits)

theorem render_sample_env_bound_witness:
  "env (engine0\<lparr>activeNote := 69, env := Val 0.5, envSlope := PosInf\<rparr>) = Val 0.5
   \<and> env (snd (render_sample (engine0\<lparr>activeNote := 69, env := Val 0.5, envSlope := PosInf\<rparr>)))
       = Val 1
   \<and> env (snd (render_sample (engine0\<lparr>env := Val 0.5, envSlope := Val (- 1000)\<rparr>))) = Val 0"
  using render_sample_env_bound
      [of "engine0\<lparr>activeNote := 69, env := Val 0.5, envSlope := PosInf\<rparr>" "0.5"]
    render_sample_env_bound [of "engine0\<lparr>env := Val 0.5, envSlope := Val (- 1000)\<rparr>" "0.5"]
  by (simp add: render_sample_def processSample_def Let_def engine0_def)

text \<open>
  C5. When no note is active and the level is zero, the loop body of \<^verbatim>\<open>render\<close> yields the
  sample 0 and the state it was given.
\<close>

theorem render_sample_silent:
  "activeNote st = 0 \<and> env st = Val 0 \<longrightarrow> render_sample st = (Val 0, st)"
  by (simp add: render_sample_def)

theorem render_sample_silent_witness:
  "activeNote (engine0\<lparr>phase := Val 1, inc_osc := Val 0.5, amplitude := Val 0.5\<rparr>) = 0
   \<and> render_sample (engine0\<lparr>phase := Val 1, inc_osc := Val 0.5, amplitude := Val 0.5\<rparr>)
       = (Val 0, engine0\<lparr>phase := Val 1, inc_osc := Val 0.5, amplitude := Val 0.5\<rparr>)"
  using render_sample_silent [of "engine0\<lparr>phase := Val 1, inc_osc := Val 0.5, amplitude := Val 0.5\<rparr>"]
  by (simp add: engine0_def)

text \<open>
  C6. \<^verbatim>\<open>noteOff\<close> of a note that is not the active one changes nothing: after note-on 60,
  note-on 64 and note-off 60 the active note is 64 and the slope is still the attack slope.
  \<^verbatim>\<open>noteOff\<close> of the active note sets the active note to 0 and the slope to
  \<open>-1 / (sampleRate * 0.01)\<close>.
\<close>

theorem noteOff_stale_or_release:
  "(note \<noteq> activeNote st \<longrightarrow> noteOff st note = st)
   \<and> noteOff (noteOn (noteOn st 60 100) 64 100) 60 = noteOn (noteOn st 60 100) 64 100
   \<and> activeNote (noteOff (noteOn (noteOn st 60 100) 64 100) 60) = 64
   \<and> envSlope (noteOff (noteOn (noteOn st 60 100) 64 100) 60)
       = fdiv (Val 1) (fmul (sampleRate st) (Val 0.01))
   \<and> (note = activeNote st \<longrightarrow>
        noteOff st note = st\<lparr>activeNote := 0,
          envSlope := fdiv (Val (- 1)) (fmul (sampleRate st) (Val 0.01))\<rparr>)"
  by (auto simp add: noteOff_def noteOn_def startSound_def Let_def releaseTime_def
      attackTime_def)

theorem noteOff_stale_or_release_witness:
  "noteOff (engine0\<lparr>activeNote := 64\<rparr>) 60 = engine0\<lparr>activeNote := 64\<rparr>
   \<and> noteOff (engine0\<lparr>activeNote := 64\<rparr>) 64
       = engine0\<lparr>activeNote := 0, envSlope := Val (- 1 / 480)\<rparr>"
  using noteOff_stale_or_release [of 60 "engine0\<lparr>activeNote := 64\<rparr>"]
    noteOff_stale_or_release [of 64 "engine0\<lparr>activeNote := 64\<rparr>"]
  by (simp add: engine0_def)

text \<open>
  C7, as the code has it. \<^verbatim>\<open>prepareToPlay\<close> stores the sample rate and sets the active
  note, the level, the phase and the increment to 0. The frequency, the amplitude and
  the slope keep the values they had.
\<close>

theorem prepareToPlay_fields:
  "prepareToPlay st sr
     = st\<lparr>sampleRate := sr, activeNote := 0, env := Val 0, phase := Val 0, inc_osc := Val 0\<rparr>
   \<and> frequency (prepareToPlay st sr) = frequency st
   \<and> amplitude (prepareToPlay st sr) = amplitude st
   \<and> envSlope (prepareToPlay st sr) = envSlope st"
  by (simp add: prepareToPlay_def reset_def)

text \<open>
  The claim C7 as stated fails: after a note-on, \<^verbatim>\<open>prepareToPlay\<close> leaves the frequency, the
  amplitude and the slope of that note, not the values the processor started with.
\<close>

theorem prepareToPlay_keeps_note_values:
  "amplitude (prepareToPlay (noteOn engine0 69 127) (Val 48000)) = Val 0.5
   \<and> frequency (prepareToPlay (noteOn engine0 69 127) (Val 48000)) = Val 440
   \<and> envSlope (prepareToPlay (noteOn engine0 69 127) (Val 48000)) = Val (1 / 480)
   \<and> amplitude (prepareToPlay (noteOn engine0 69 127) (Val 48000)) \<noteq> amplitude engine0
   \<and> frequency (prepareToPlay (noteOn engine0 69 127) (Val 48000)) \<noteq> frequency engine0
   \<and> envSlope (prepareToPlay (noteOn engine0 69 127) (Val 48000)) \<noteq> envSlope engine0"
  by (simp add: prepareToPlay_def reset_def noteOn_def startSound_def Let_def engine0_def
      attackTime_def)

text \<open>
  C9. \<^verbatim>\<open>noteOn\<close> sets the amplitude to \<open>(velocity / 127) * 0.5\<close>, which is 0.5 for velocity
  127; and \<^verbatim>\<open>handleMIDI\<close> treats a status byte with high nibble 9 and velocity 0 as the
  note-off of that note.
\<close>

theorem noteOn_amplitude_and_zero_velocity:
  "amplitude (noteOn st note velocity) = fmul (fdiv (Val (of_int velocity)) (Val 127)) (Val 0.5)
   \<and> amplitude (noteOn st 69 127) = Val 0.5
   \<and> (data0 AND 0xF0 = 0x90 \<longrightarrow> handleMIDI st data0 data1 0 = noteOff st (uint data1))"
  by (simp add: noteOn_def startSound_def Let_def handleMIDI_def)

theorem noteOn_amplitude_and_zero_velocity_witness:
  "(0x93 :: u8) AND 0xF0 = 0x90
   \<and> handleMIDI (noteOn engine0 69 127) 0x93 69 0 = noteOff (noteOn engine0 69 127) 69
   \<and> activeNote (handleMIDI (noteOn engine0 69 127) 0x93 69 0) = 0
   \<and> envSlope (handleMIDI (noteOn engine0 69 127) 0x93 69 0) = Val (- 1 / 480)
   \<and> amplitude (handleMIDI (noteOn engine0 69 127) 0x93 69 0) = Val 0.5"
  using noteOn_amplitude_and_zero_velocity [of "noteOn engine0 69 127" 69 127 "0x93" 69]
  by (simp add: noteOn_def noteOff_def startSound_def Let_def engine0_def attackTime_def
      releaseTime_def)

section \<open>The command-line program\<close>

lemma processSample_finite:
  "phase st = Val p \<Longrightarrow> inc_osc st = Val i \<Longrightarrow> amplitude st = Val a \<Longrightarrow>
   processSample st = (Val (a * sin p),
     st\<lparr>phase := Val (if TWO_PI < p + i then p + i - TWO_PI else p + i)\<rparr>)"
  by (simp add: processSample_def Let_def fsub_def)

lemma trunc_abs_le:
  assumes "\<bar>x\<bar> \<le> of_int k"
  shows "- k \<le> trunc x \<and> trunc x \<le> k"
proof -
  have "- of_int k \<le> x" "x \<le> of_int k" using assms by auto
  then have "- k \<le> \<lfloor>x\<rfloor>" "\<lfloor>x\<rfloor> \<le> k" "- k \<le> \<lceil>x\<rceil>" "\<lceil>x\<rceil> \<le> k"
    by (simp_all add: le_floor_iff floor_le_iff ceiling_le_iff le_ceiling_iff)
  then show ?thesis by (simp add: trunc_def)
qed

lemma to_int16_sample:
  assumes "\<bar>a\<bar> \<le> 1"
  shows "to_int16 (fmul (Val (a * sin p)) (Val 32767))
           = Some (word_of_int (trunc (a * sin p * 32767)))"
proof -
  have "\<bar>a * sin p\<bar> \<le> 1 * 1"
    unfolding abs_mult using assms by (intro mult_mono) auto
  then have "\<bar>a * sin p * 32767\<bar> \<le> of_int 32767" by (simp add: abs_mult)
  from trunc_abs_le [OF this] show ?thesis by (simp add: to_int16_def)
qed

lemma fill_buffer_Some:
  "amplitude st = Val a \<Longrightarrow> \<bar>a\<bar> \<le> 1 \<Longrightarrow> phase st = Val p \<Longrightarrow> inc_osc st = Val i \<Longrightarrow>
   \<exists>xs st'. osc_outputs st n = map Val xs \<and> length xs = n
      \<and> fill_buffer st n = Some (map (\<lambda>x. word_of_int (trunc (x * 32767))) xs, st')
      \<and> sampleRate st' = sampleRate st"
proof (induction n arbitrary: st p)
  case 0
  then show ?case by simp
next
  case (Suc n)
  let ?q = "if TWO_PI < p + i then p + i - TWO_PI else p + i"
  let ?st = "st\<lparr>phase := Val ?q\<rparr>"
  have ps: "processSample st = (Val (a * sin p), ?st)"
    using Suc.prems by (simp add: processSample_finite)
  have "amplitude ?st = Val a" "phase ?st = Val ?q" "inc_osc ?st = Val i"
    using Suc.prems by simp_all
  from Suc.IH [OF this(1) Suc.prems(2) this(2,3)]
  obtain xs st' where xs: "osc_outputs ?st n = map Val xs" "length xs = n"
    "fill_buffer ?st n = Some (map (\<lambda>x. word_of_int (trunc (x * 32767))) xs, st')"
    "sampleRate st' = sampleRate ?st" by blast
  have "osc_outputs st (Suc n) = map Val ((a * sin p) # xs)"
    using ps xs(1) by simp
  moreover have "fill_buffer st (Suc n)
      = Some (map (\<lambda>x. word_of_int (trunc (x * 32767))) ((a * sin p) # xs), st')"
    using ps xs(3) to_int16_sample [OF Suc.prems(2), of p] by simp
  ultimately show ?case using xs(2,4) by (intro exI [of _ "(a * sin p) # xs"] exI [of _ st']) simp
qed

lemma trunc_nonneg: "0 \<le> x \<Longrightarrow> trunc x = \<lfloor>x\<rfloor>"
  by (simp add: trunc_def)

lemma main_Some:
  assumes g: "sampleRate g = Val sr" "frequency g = Val f" "amplitude g = Val a"
    and r: "0 < sr" "sr < 2 ^ 32" "0 \<le> l" "sr * l < 2 ^ 30" "\<bar>a\<bar> \<le> 1"
  shows "\<exists>xs. osc_outputs (startSound (reset g)) (nat \<lfloor>sr * l\<rfloor>) = map Val xs
      \<and> length xs = nat \<lfloor>sr * l\<rfloor>
      \<and> main g (Val l) True = Some (0, Some
          (ascii ''RIFF'' @ le32 (44 + word_of_int (\<lfloor>sr * l\<rfloor> * 2)) @ ascii ''WAVE''
           @ ascii ''fmt '' @ le32 16 @ le16 1 @ le16 1 @ le32 (word_of_int \<lfloor>sr\<rfloor>)
           @ le32 (word_of_int \<lfloor>sr\<rfloor> * 2) @ le16 2 @ le16 16 @ ascii ''data''
           @ le32 (word_of_int (\<lfloor>sr * l\<rfloor> * 2))
           @ concat (map (\<lambda>x. le16 (word_of_int (trunc (x * 32767)))) xs)))"
proof -
  let ?st = "startSound (reset g)"
  let ?n = "\<lfloor>sr * l\<rfloor>"
  have st: "sampleRate ?st = Val sr" "amplitude ?st = Val a" "phase ?st = Val 0"
    "inc_osc ?st = Val (f * TWO_PI / sr)"
    using g r(1) by (simp_all add: startSound_def reset_def)
  have nn: "0 \<le> sr * l" using r by simp
  have n0: "0 \<le> ?n" using nn by simp
  have "?n \<le> sr * l" by simp
  then have "of_int ?n < (2::real) ^ 30" using r(4) by linarith
  then have n1: "?n < 2 ^ 30" by (metis of_int_less_iff of_int_numeral of_int_power)
  have n1': "?n < 1073741824" using n1 by simp
  have im: "INT_MAX = 2147483647" by (simp add: INT_MAX_def)
  have n2: "\<not> INT_MAX < ?n * 2" using n1' unfolding im by linarith
  have cnt: "double_to_int INT_MIN INT_MAX (fmul (sampleRate ?st) (Val l)) = Some ?n"
    using st(1) nn n0 n1 by (simp add: trunc_nonneg INT_MIN_def INT_MAX_def)
  from fill_buffer_Some [OF st(2) r(5) st(3,4), of "nat ?n"]
  obtain xs st' where xs: "osc_outputs ?st (nat ?n) = map Val xs" "length xs = nat ?n"
    "fill_buffer ?st (nat ?n) = Some (map (\<lambda>x. word_of_int (trunc (x * 32767))) xs, st')"
    "sampleRate st' = sampleRate ?st" by blast
  have s0: "0 \<le> \<lfloor>sr\<rfloor>" using r(1) by simp
  have "of_int \<lfloor>sr\<rfloor> < (2::real) ^ 32" using r(2) by (meson floor_less_iff of_int_floor_le order_le_less_trans)
  then have s1: "\<lfloor>sr\<rfloor> < 2 ^ 32" by (metis of_int_less_iff of_int_numeral of_int_power)
  have srate: "double_to_int 0 (2 ^ 32 - 1) (sampleRate st') = Some \<lfloor>sr\<rfloor>"
    using xs(4) st(1) r(1) s0 s1 by (simp add: trunc_nonneg)
  have "main g (Val l) True = Some (0, Some
          (ascii ''RIFF'' @ le32 (44 + word_of_int (\<lfloor>sr * l\<rfloor> * 2)) @ ascii ''WAVE''
           @ ascii ''fmt '' @ le32 16 @ le16 1 @ le16 1 @ le32 (word_of_int \<lfloor>sr\<rfloor>)
           @ le32 (word_of_int \<lfloor>sr\<rfloor> * 2) @ le16 2 @ le16 16 @ ascii ''data''
           @ le32 (word_of_int (\<lfloor>sr * l\<rfloor> * 2))
           @ concat (map (\<lambda>x. le16 (word_of_int (trunc (x * 32767)))) xs)))"
    unfolding main_def Let_def cnt using n0 n2 xs(3) srate
    by (simp add: comp_def)
  then show ?thesis using xs(1,2) by blast
qed

lemma sin_bounds5:
  assumes "0 \<le> (x::real)"
  shows "x - x ^ 3 / 6 - x ^ 5 / 120 \<le> sin x \<and> sin x \<le> x - x ^ 3 / 6 + x ^ 5 / 120"
proof -
  have five: "{..<5::nat} = {0, 1, 2, 3, 4}" by auto
  have s: "(\<Sum>m<5. sin_coeff m * x ^ m) = x - x ^ 3 / 6"
    unfolding five by (simp add: sin_coeff_def fact_numeral)
  have "\<bar>sin x - (\<Sum>m<5. sin_coeff m * x ^ m)\<bar> \<le> inverse (fact 5) * \<bar>x\<bar> ^ 5"
    by (rule Maclaurin_sin_bound)
  then have "\<bar>sin x - (x - x ^ 3 / 6)\<bar> \<le> x ^ 5 / 120"
    unfolding s using assms by (simp add: fact_numeral)
  then show ?thesis by linarith
qed

lemma second_sample:
  "trunc (0.5 * sin (261.63 * TWO_PI / 48000) * 32767) = 560
   \<and> round (0.5 * sin (261.63 * TWO_PI / 48000) * 32767) = 561"
proof -
  let ?x = "261.63 * TWO_PI / 48000 :: real"
  have x0: "0 \<le> ?x" by (simp add: TWO_PI_def)
  have lo: "5609805 / 10000 / 32767 * 2 \<le> ?x - ?x ^ 3 / 6 - ?x ^ 5 / 120"
    by (simp add: TWO_PI_def power_divide)
  have hi: "?x - ?x ^ 3 / 6 + ?x ^ 5 / 120 \<le> 5609809 / 10000 / 32767 * 2"
    by (simp add: TWO_PI_def power_divide)
  from sin_bounds5 [OF x0] lo hi
  have "5609805 / 10000 / 32767 * 2 \<le> sin ?x" "sin ?x \<le> 5609809 / 10000 / 32767 * 2"
    by linarith+
  then have b: "5609805 / 10000 \<le> 0.5 * sin ?x * 32767"
    "0.5 * sin ?x * 32767 \<le> 5609809 / 10000"
    by (simp_all add: field_simps)
  have "\<lfloor>0.5 * sin ?x * 32767\<rfloor> = 560"
    using b by (intro floor_unique) auto
  moreover have "\<lfloor>0.5 * sin ?x * 32767 + 1 / 2\<rfloor> = 561"
    using b by (intro floor_unique) auto
  moreover have "0 \<le> 0.5 * sin ?x * 32767" using b(1) by linarith
  ultimately show ?thesis unfolding trunc_def round_def by simp
qed

lemma length_concat_pairs: "length (concat (map (\<lambda>x. [h x, k x]) xs)) = 2 * length xs"
  by (induction xs) simp_all

text \<open>
  C8, as the code has it. With a sample rate in \<open>(0, 2^32)\<close>, an amplitude of magnitude at
  most 1 and fewer than \<open>2^30\<close> samples, \<^verbatim>\<open>main\<close> ends with status 0 and has written a file of
  44 bytes and two bytes per sample: the tags \<^verbatim>\<open>RIFF\<close>, \<^verbatim>\<open>WAVE\<close>, \<^verbatim>\<open>fmt \<close> and \<^verbatim>\<open>data\<close>, the
  block size 16, format tag 1, channel count 1, the sample rate, the byte rate (sample rate
  times 2), block align 2, bits per sample 16 and the data length in bytes, all
  little-endian, and then for each float sample \<open>x\<close> of the oscillator the little-endian
  16-bit value of \<open>x * 32767\<close> truncated towards zero. (The RIFF length field at bytes 4 to 7
  is not part of this statement.)
\<close>

theorem main_wav_file:
  "sampleRate g = Val sr \<and> frequency g = Val f \<and> amplitude g = Val a
     \<and> 0 < sr \<and> sr < 2 ^ 32 \<and> 0 \<le> l \<and> sr * l < 2 ^ 30 \<and> \<bar>a\<bar> \<le> 1 \<longrightarrow>
   (\<exists>bytes xs. main g (Val l) True = Some (0, Some bytes)
      \<and> osc_outputs (startSound (reset g)) (nat \<lfloor>sr * l\<rfloor>) = map Val xs
      \<and> length xs = nat \<lfloor>sr * l\<rfloor>
      \<and> length bytes = 44 + 2 * length xs
      \<and> take 4 bytes = ascii ''RIFF''
      \<and> take 4 (drop 8 bytes) = ascii ''WAVE''
      \<and> take 4 (drop 12 bytes) = ascii ''fmt ''
      \<and> take 4 (drop 16 bytes) = le32 16
      \<and> take 2 (drop 20 bytes) = le16 1
      \<and> take 2 (drop 22 bytes) = le16 1
      \<and> take 4 (drop 24 bytes) = le32 (word_of_int \<lfloor>sr\<rfloor>)
      \<and> take 4 (drop 28 bytes) = le32 (word_of_int \<lfloor>sr\<rfloor> * 2)
      \<and> take 2 (drop 32 bytes) = le16 2
      \<and> take 2 (drop 34 bytes) = le16 16
      \<and> take 4 (drop 36 bytes) = ascii ''data''
      \<and> take 4 (drop 40 bytes) = le32 (word_of_int (2 * int (length xs)))
      \<and> drop 44 bytes = concat (map (\<lambda>x. le16 (word_of_int (trunc (x * 32767)))) xs))"
proof (intro impI)
  assume a: "sampleRate g = Val sr \<and> frequency g = Val f \<and> amplitude g = Val a
     \<and> 0 < sr \<and> sr < 2 ^ 32 \<and> 0 \<le> l \<and> sr * l < 2 ^ 30 \<and> \<bar>a\<bar> \<le> 1"
  then have "0 \<le> sr * l" by simp
  then have n0: "0 \<le> \<lfloor>sr * l\<rfloor>" by simp
  from a have "sampleRate g = Val sr" "frequency g = Val f" "amplitude g = Val a"
    "0 < sr" "sr < 2 ^ 32" "0 \<le> l" "sr * l < 2 ^ 30" "\<bar>a\<bar> \<le> 1" by simp_all
  from main_Some [OF this]
  obtain xs where xs: "osc_outputs (startSound (reset g)) (nat \<lfloor>sr * l\<rfloor>) = map Val xs"
    "length xs = nat \<lfloor>sr * l\<rfloor>"
    "main g (Val l) True = Some (0, Some
          (ascii ''RIFF'' @ le32 (44 + word_of_int (\<lfloor>sr * l\<rfloor> * 2)) @ ascii ''WAVE''
           @ ascii ''fmt '' @ le32 16 @ le16 1 @ le16 1 @ le32 (word_of_int \<lfloor>sr\<rfloor>)
           @ le32 (word_of_int \<lfloor>sr\<rfloor> * 2) @ le16 2 @ le16 16 @ ascii ''data''
           @ le32 (word_of_int (\<lfloor>sr * l\<rfloor> * 2))
           @ concat (map (\<lambda>x. le16 (word_of_int (trunc (x * 32767)))) xs)))" by blast
  have len: "2 * int (length xs) = \<lfloor>sr * l\<rfloor> * 2" using xs(2) n0 by simp
  show "\<exists>bytes xs. main g (Val l) True = Some (0, Some bytes)
      \<and> osc_outputs (startSound (reset g)) (nat \<lfloor>sr * l\<rfloor>) = map Val xs
      \<and> length xs = nat \<lfloor>sr * l\<rfloor>
      \<and> length bytes = 44 + 2 * length xs
      \<and> take 4 bytes = ascii ''RIFF''
      \<and> take 4 (drop 8 bytes) = ascii ''WAVE''
      \<and> take 4 (drop 12 bytes) = ascii ''fmt ''
      \<and> take 4 (drop 16 bytes) = le32 16
      \<and> take 2 (drop 20 bytes) = le16 1
      \<and> take 2 (drop 22 bytes) = le16 1
      \<and> take 4 (drop 24 bytes) = le32 (word_of_int \<lfloor>sr\<rfloor>)
      \<and> take 4 (drop 28 bytes) = le32 (word_of_int \<lfloor>sr\<rfloor> * 2)
      \<and> take 2 (drop 32 bytes) = le16 2
      \<and> take 2 (drop 34 bytes) = le16 16
      \<and> take 4 (drop 36 bytes) = ascii ''data''
      \<and> take 4 (drop 40 bytes) = le32 (word_of_int (2 * int (length xs)))
      \<and> drop 44 bytes = concat (map (\<lambda>x. le16 (word_of_int (trunc (x * 32767)))) xs)"
    unfolding xs(3) [folded len]
    apply (intro exI [of _ xs] exI conjI)
                     apply (rule refl)
                    apply (rule xs(1))
                   apply (rule xs(2))
                  apply (simp_all add: length_concat_pairs le32_def le16_def ascii_def)
    done
qed


theorem main_wav_file_witness:
  "\<exists>bytes. main cli_globals cli_lengthInSeconds True = Some (0, Some bytes)
     \<and> length bytes = 960044
     \<and> take 4 (drop 24 bytes) = le32 48000
     \<and> take 4 (drop 28 bytes) = le32 96000
     \<and> take 4 (drop 40 bytes) = le32 960000"
proof -
  have h: "sampleRate cli_globals = Val 48000 \<and> frequency cli_globals = Val 261.63
     \<and> amplitude cli_globals = Val 0.5
     \<and> (0::real) < 48000 \<and> (48000::real) < 2 ^ 32 \<and> (0::real) \<le> 10
     \<and> (48000::real) * 10 < 2 ^ 30 \<and> \<bar>0.5::real\<bar> \<le> 1"
    by (simp add: cli_globals_def)
  have n: "nat \<lfloor>48000 * 10 :: real\<rfloor> = 480000" by simp
  from main_wav_file [of cli_globals 48000 "261.63" "0.5" 10, rule_format, OF h]
  show ?thesis unfolding n cli_lengthInSeconds_def by auto
qed

lemma first_two_outputs:
  "osc_outputs (startSound (reset cli_globals)) (Suc (Suc m))
     = Val 0 # Val (0.5 * sin (261.63 * TWO_PI / 48000))
         # osc_outputs (snd (processSample (snd (processSample (startSound (reset cli_globals)))))) m"
proof -
  let ?st = "startSound (reset cli_globals)"
  have st: "phase ?st = Val 0" "inc_osc ?st = Val (261.63 * TWO_PI / 48000)"
    "amplitude ?st = Val 0.5"
    by (simp_all add: startSound_def reset_def cli_globals_def)
  have lt: "\<not> TWO_PI < 0 + 261.63 * TWO_PI / 48000" by (simp add: TWO_PI_def)
  have p1: "processSample ?st = (Val 0, ?st\<lparr>phase := Val (261.63 * TWO_PI / 48000)\<rparr>)"
    using processSample_finite [OF st] lt by simp
  have p2: "fst (processSample (?st\<lparr>phase := Val (261.63 * TWO_PI / 48000)\<rparr>))
      = Val (0.5 * sin (261.63 * TWO_PI / 48000))"
    using st by (subst processSample_finite [where p = "261.63 * TWO_PI / 48000"
          and i = "261.63 * TWO_PI / 48000" and a = "0.5"]) simp_all
  show ?thesis using p1 p2 by simp
qed

text \<open>
  The claim C8 as stated fails on the program as shipped (48 kHz, 261.63 Hz, amplitude 0.5,
  10 seconds). The second float sample times 32767 is about 560.98; the file holds 560 for
  it, the value truncated, where rounding gives 561. And the RIFF length field holds the
  data length plus 44, not plus 36.
\<close>

theorem main_truncates_second_sample:
  "osc_outputs (startSound (reset cli_globals)) 2
     = [Val 0, Val (0.5 * sin (261.63 * TWO_PI / 48000))]
   \<and> take 2 (drop 46 (written_file (main cli_globals cli_lengthInSeconds True))) = le16 560
   \<and> round (0.5 * sin (261.63 * TWO_PI / 48000) * 32767) = 561
   \<and> le16 560 \<noteq> le16 561
   \<and> take 4 (drop 40 (written_file (main cli_globals cli_lengthInSeconds True))) = le32 960000
   \<and> take 4 (drop 4 (written_file (main cli_globals cli_lengthInSeconds True))) = le32 960044
   \<and> le32 960044 \<noteq> le32 (960000 + 36)"
proof -
  let ?s1 = "0.5 * sin (261.63 * TWO_PI / 48000) :: real"
  have g: "sampleRate cli_globals = Val 48000" "frequency cli_globals = Val 261.63"
    "amplitude cli_globals = Val 0.5"
    by (simp_all add: cli_globals_def)
  have n: "nat \<lfloor>48000 * 10 :: real\<rfloor> = Suc (Suc 479998)" by simp
  have fl: "\<lfloor>48000 * 10 :: real\<rfloor> = 480000" by simp
  from main_Some [OF g, of 10]
  obtain xs where xs: "osc_outputs (startSound (reset cli_globals)) (Suc (Suc 479998)) = map Val xs"
    and m: "main cli_globals (Val 10) True = Some (0, Some
          (ascii ''RIFF'' @ le32 (44 + word_of_int (480000 * 2)) @ ascii ''WAVE''
           @ ascii ''fmt '' @ le32 16 @ le16 1 @ le16 1 @ le32 (word_of_int \<lfloor>48000\<rfloor>)
           @ le32 (word_of_int \<lfloor>48000\<rfloor> * 2) @ le16 2 @ le16 16 @ ascii ''data''
           @ le32 (word_of_int (480000 * 2))
           @ concat (map (\<lambda>x. le16 (word_of_int (trunc (x * 32767)))) xs)))"
    unfolding n fl by auto
  from xs first_two_outputs [of 479998]
  obtain xs' where xs': "xs = 0 # ?s1 # xs'"
    by (cases xs; cases "tl xs") auto
  have t: "trunc (?s1 * 32767) = 560" and r: "round (?s1 * 32767) = 561"
    using second_sample by simp_all
  have t0: "trunc 0 = 0" by (simp add: trunc_def)
  have o: "osc_outputs (startSound (reset cli_globals)) 2 = [Val 0, Val ?s1]"
    using first_two_outputs [of 0] by (simp add: numeral_2_eq_2)
  have w: "written_file (main cli_globals cli_lengthInSeconds True)
      = ascii ''RIFF'' @ le32 960044 @ ascii ''WAVE''
           @ ascii ''fmt '' @ le32 16 @ le16 1 @ le16 1 @ le32 48000
           @ le32 96000 @ le16 2 @ le16 16 @ ascii ''data''
           @ le32 960000 @ le16 0 @ le16 560
           @ concat (map (\<lambda>x. le16 (word_of_int (trunc (x * 32767)))) xs')"
    unfolding cli_lengthInSeconds_def m xs' written_file_def
    using t t0 by simp
  show ?thesis
    unfolding w using o r by (simp add: le32_def le16_def ascii_def)
qed

end
